theory Spec2Isabelle
  imports Main "HOL-Library.Word" "HOL-Library.Signed_Division"
begin

unbundle bit_operations_syntax

section \<open>The LM77 driver (lm77.c, lm77.h) as HOL functions\<close>

text \<open>
  C's \<open>int\<close> is modelled as \<open>int\<close>. Signed overflow is undefined in C, so the
  unbounded arithmetic agrees with the program wherever the program's arithmetic is
  defined; the temperatures in millidegrees and the register values the driver works
  with are far inside the 32-bit range. \<open>long\<close> has the width of \<open>int\<close> on the i386
  hosts of kernel 2.4, so the values of the \<open>results\<close> buffer are \<open>int\<close> too. C's \<open>/\<close>
  on \<open>int\<close> truncates toward zero, which is \<open>sdiv\<close>. The fixed-width types are words:
  \<open>u8\<close>, \<open>u16\<close> and the \<open>unsigned long\<close> of \<open>jiffies\<close> (32 bits on those hosts),
  whose subtraction wraps. A conversion to a fixed-width type is \<open>word_of_int\<close>.
\<close>

type_synonym u8 = "8 word"
type_synonym u16 = "16 word"
type_synonym ulong = "32 word"

subsection \<open>lm77.h: the register codec\<close>

definition LM77_TEMP_MIN :: int where
  "LM77_TEMP_MIN = - 55000"

definition LM77_TEMP_MAX :: int where
  "LM77_TEMP_MAX = 125000"

definition LM77_TEMP_MASK :: int where
  "LM77_TEMP_MASK = 0x1ff8"

text \<open>
  Modelled from the spec: \<open>SENSORS_LIMIT\<close> is declared in \<open>linux/i2c-proc.h\<close>, which
  is not among the sources. The spec says of the encoder that it clamps \<open>temp\<close> to
  \<open>[-55000, 125000]\<close>, values outside being clamped, never wrapped.
\<close>

definition SENSORS_LIMIT :: "int \<Rightarrow> int \<Rightarrow> int \<Rightarrow> int" where
  "SENSORS_LIMIT x low high = (if x < low then low else if x > high then high else x)"

text \<open>
  lm77.h holds the codec twice; the second version, in millidegrees, is the one whose
  bounds the checks of lm77.c use, and the one modelled. \<open>LM77_TEMP_TO_REG\<close>: clamp,
  divide by 500, shift left by 3, set bits 13 to 15 when bit 9 of the shifted value is
  set, and cast to \<open>u16\<close>.
\<close>

definition LM77_TEMP_TO_REG :: "int \<Rightarrow> u16" where
  "LM77_TEMP_TO_REG temp =
     (let ntemp = SENSORS_LIMIT temp LM77_TEMP_MIN LM77_TEMP_MAX;
          ntemp = push_bit 3 (ntemp sdiv 500);
          ntemp = (if ntemp AND 0x200 \<noteq> 0 then ntemp OR 0xe000 else ntemp)
      in word_of_int ntemp)"

text \<open>
  \<open>LM77_TEMP_FROM_REG\<close>: mask with \<open>LM77_TEMP_MASK\<close>, shift right by 3, subtract 1024
  when bit 9 is set, multiply by 500.
\<close>

definition LM77_TEMP_FROM_REG :: "u16 \<Rightarrow> int" where
  "LM77_TEMP_FROM_REG reg =
     (let val = drop_bit 3 (uint reg AND LM77_TEMP_MASK);
          val = (if val AND 0x200 \<noteq> 0 then val - 1024 else val)
      in val * 500)"

subsection \<open>The bus and the kernel log\<close>

text \<open>
  The SMBus transfers of the I2C layer are the driver's only access to the chip. A bus is
  any function from the state of what answers at the client's address and a transfer to
  the transfer's return value (\<open>s32\<close>: the data read, 0 for a write, a negative number
  for a failed transfer) and the next state. The kernel record holds that state, the
  list of the transfers issued so far (oldest first) and the lines written by \<open>printk\<close>
  (the format strings, without log level and newline).
\<close>

datatype bus_op =
    Read_Byte_Data u8
  | Read_Word_Data u8
  | Write_Byte_Data u8 u8
  | Write_Word_Data u8 u16

type_synonym 'b smbus = "'b \<Rightarrow> bus_op \<Rightarrow> int \<times> 'b"

record 'b kernel =
  chip :: 'b
  issued :: "bus_op list"
  klog :: "string list"

definition i2c_smbus_xfer :: "'b smbus \<Rightarrow> bus_op \<Rightarrow> 'b kernel \<Rightarrow> int \<times> 'b kernel" where
  "i2c_smbus_xfer bus op k =
     (case bus (chip k) op of
        (r, s) \<Rightarrow> (r, k\<lparr>chip := s, issued := issued k @ [op]\<rparr>))"

definition i2c_smbus_read_byte_data :: "'b smbus \<Rightarrow> u8 \<Rightarrow> 'b kernel \<Rightarrow> int \<times> 'b kernel" where
  "i2c_smbus_read_byte_data bus reg = i2c_smbus_xfer bus (Read_Byte_Data reg)"

definition i2c_smbus_read_word_data :: "'b smbus \<Rightarrow> u8 \<Rightarrow> 'b kernel \<Rightarrow> int \<times> 'b kernel" where
  "i2c_smbus_read_word_data bus reg = i2c_smbus_xfer bus (Read_Word_Data reg)"

definition i2c_smbus_write_byte_data ::
  "'b smbus \<Rightarrow> u8 \<Rightarrow> u8 \<Rightarrow> 'b kernel \<Rightarrow> int \<times> 'b kernel" where
  "i2c_smbus_write_byte_data bus reg v = i2c_smbus_xfer bus (Write_Byte_Data reg v)"

definition i2c_smbus_write_word_data ::
  "'b smbus \<Rightarrow> u8 \<Rightarrow> u16 \<Rightarrow> 'b kernel \<Rightarrow> int \<times> 'b kernel" where
  "i2c_smbus_write_word_data bus reg v = i2c_smbus_xfer bus (Write_Word_Data reg v)"

definition printk :: "string \<Rightarrow> 'b kernel \<Rightarrow> 'b kernel" where
  "printk msg k = k\<lparr>klog := klog k @ [msg]\<rparr>"

text \<open>
  Modelled from the spec: \<open>swab16\<close> is a macro of the kernel's byte-order headers, which
  are not among the sources. The spec says that 16-bit reads and writes are byte-swapped
  relative to the host's order.
\<close>

definition swab16 :: "u16 \<Rightarrow> u16" where
  "swab16 x = push_bit 8 x OR drop_bit 8 x"

subsection \<open>lm77.c: registers, client data, register access\<close>

definition LM77_REG_TEMP :: u8 where "LM77_REG_TEMP = 0x00"
definition LM77_REG_CONF :: u8 where "LM77_REG_CONF = 0x01"
definition LM77_REG_T_HYST :: u8 where "LM77_REG_T_HYST = 0x02"
definition LM77_REG_T_CRIT :: u8 where "LM77_REG_T_CRIT = 0x03"
definition LM77_REG_T_LOW :: u8 where "LM77_REG_T_LOW = 0x04"
definition LM77_REG_T_HIGH :: u8 where "LM77_REG_T_HIGH = 0x05"

definition LM77_CONF_SHUTDOWN :: int where "LM77_CONF_SHUTDOWN = 0x1"

definition LM77_SC_NOTSET :: int where "LM77_SC_NOTSET = - 99999"

definition LM77_ALARM_MASK :: int where "LM77_ALARM_MASK = 0x0007"

text \<open>
  \<open>struct lm77_data\<close> without the embedded client and the semaphore: the model is
  sequential, so \<open>down\<close> and \<open>up\<close> on \<open>update_lock\<close> have no effect in it. The
  \<open>char valid\<close> only ever holds 0 or 1.
\<close>

record lm77_data =
  sysctl_id :: int
  valid :: bool
  last_updated :: ulong
  temp_input :: int
  temp_crit :: int
  temp_min :: int
  temp_max :: int
  temp_hyst :: int
  alarms :: u8

text \<open>
  \<open>lm77_read_value\<close> returns \<open>int\<close>: the byte read for the configuration register,
  and for every other register the word read, converted to \<open>u16\<close> and byte-swapped.
  Neither function looks at a failed transfer's return value in any special way.
\<close>

definition lm77_read_value :: "'b smbus \<Rightarrow> u8 \<Rightarrow> 'b kernel \<Rightarrow> int \<times> 'b kernel" where
  "lm77_read_value bus reg k =
     (if reg = LM77_REG_CONF then i2c_smbus_read_byte_data bus reg k
      else (case i2c_smbus_read_word_data bus reg k of
              (r, k') \<Rightarrow> (uint (swab16 (word_of_int r)), k')))"

definition lm77_write_value :: "'b smbus \<Rightarrow> u8 \<Rightarrow> u16 \<Rightarrow> 'b kernel \<Rightarrow> int \<times> 'b kernel" where
  "lm77_write_value bus reg v k =
     (if reg = LM77_REG_CONF then i2c_smbus_write_byte_data bus reg (ucast v) k
      else i2c_smbus_write_word_data bus reg (swab16 v) k)"

subsection \<open>lm77_update_client\<close>

text \<open>
  \<open>HZ\<close> and \<open>jiffies\<close> are the host's: parameters here, \<open>jiffies\<close> being the value
  the clock has during the call. The comparison is made in \<open>unsigned long\<close>, where the
  subtraction wraps. The live temperature register is read twice, first for the
  temperature and last for the alarm bits.
\<close>

definition lm77_update_client ::
  "'b smbus \<Rightarrow> nat \<Rightarrow> ulong \<Rightarrow> lm77_data \<times> 'b kernel \<Rightarrow> lm77_data \<times> 'b kernel" where
  "lm77_update_client bus HZ jiffies st =
     (case st of (data, k) \<Rightarrow>
        if jiffies - last_updated data > of_nat (HZ + HZ div 2)
           \<or> jiffies < last_updated data \<or> \<not> valid data
        then
          (case lm77_read_value bus LM77_REG_TEMP k of (r_input, k) \<Rightarrow>
           case lm77_read_value bus LM77_REG_T_HYST k of (r_hyst, k) \<Rightarrow>
           case lm77_read_value bus LM77_REG_T_CRIT k of (r_crit, k) \<Rightarrow>
           case lm77_read_value bus LM77_REG_T_LOW k of (r_min, k) \<Rightarrow>
           case lm77_read_value bus LM77_REG_T_HIGH k of (r_max, k) \<Rightarrow>
           case lm77_read_value bus LM77_REG_TEMP k of (r_alarms, k) \<Rightarrow>
             (data\<lparr>temp_input := LM77_TEMP_FROM_REG (word_of_int r_input),
                    temp_hyst := LM77_TEMP_FROM_REG (word_of_int r_hyst),
                    temp_crit := LM77_TEMP_FROM_REG (word_of_int r_crit),
                    temp_min := LM77_TEMP_FROM_REG (word_of_int r_min),
                    temp_max := LM77_TEMP_FROM_REG (word_of_int r_max),
                    alarms := word_of_int (r_alarms AND LM77_ALARM_MASK),
                    last_updated := jiffies,
                    valid := True\<rparr>, k))
        else (data, k))"

subsection \<open>lm77_proc_temp and lm77_proc_alarms\<close>

text \<open>
  The operation codes come from \<open>linux/i2c-proc.h\<close>; the sysctl names are lm77.c's.
  The caller's \<open>long *results\<close> buffer is a function from index to value, and
  \<open>*nrels_mag\<close> is passed in and returned.
\<close>

datatype operation = SENSORS_PROC_REAL_INFO | SENSORS_PROC_REAL_READ | SENSORS_PROC_REAL_WRITE

definition LM77_SYSCTL_TEMP :: int where "LM77_SYSCTL_TEMP = 1200"
definition LM77_SYSCTL_TEMP_CRIT :: int where "LM77_SYSCTL_TEMP_CRIT = 1201"
definition LM77_SYSCTL_TEMP_HYST :: int where "LM77_SYSCTL_TEMP_HYST = 1202"
definition LM77_SYSCTL_ALARMS :: int where "LM77_SYSCTL_ALARMS = 1203"

text \<open>
  The write branch, first part: the \<open>switch\<close> that fills \<open>new[4]\<close> (low, high,
  critical, hysteresis) from the values the caller wrote, \<open>LM77_SC_NOTSET\<close> standing
  for a value that was not given.
\<close>

definition lm77_proc_temp_new :: "int \<Rightarrow> int \<Rightarrow> (nat \<Rightarrow> int) \<Rightarrow> int list" where
  "lm77_proc_temp_new ctl_name nrels_mag results =
     (let new = [LM77_SC_NOTSET, LM77_SC_NOTSET, LM77_SC_NOTSET, LM77_SC_NOTSET] in
      if ctl_name = LM77_SYSCTL_TEMP then
        (let new = (if nrels_mag \<ge> 1 then new[0 := results 0] else new);
             new = (if nrels_mag \<ge> 2 then new[1 := results 1] else new)
         in new)
      else if ctl_name = LM77_SYSCTL_TEMP_CRIT then
        (if nrels_mag \<ge> 1 then new[2 := results 0] else new)
      else if ctl_name = LM77_SYSCTL_TEMP_HYST then
        (if nrels_mag \<ge> 1 then new[3 := results 0] else new)
      else new)"

text \<open>
  Second part: \<open>check[4]\<close> is filled from \<open>new\<close> and the cached values, and the four
  checks run one after the other, each printing its line and clearing \<open>passed\<close>. The
  fourth check reads \<open>check[4]\<close>, one element past the end of the array: what the C
  program finds there is not determined by the source, so the value read is the
  parameter \<open>past_check\<close>.
\<close>

definition lm77_proc_temp_check ::
  "int \<Rightarrow> int list \<Rightarrow> lm77_data \<Rightarrow> 'b kernel \<Rightarrow> bool \<times> 'b kernel" where
  "lm77_proc_temp_check past_check new data k =
     (let check = [if new ! 0 = LM77_SC_NOTSET then temp_min data else new ! 0,
                   if new ! 1 = LM77_SC_NOTSET then temp_max data else new ! 1,
                   if new ! 2 = LM77_SC_NOTSET then temp_crit data else new ! 2,
                   if new ! 3 = LM77_SC_NOTSET then temp_hyst data else new ! 3];
          passed = True;
          (passed, k) =
            (if check ! 0 < LM77_TEMP_MIN \<or> check ! 0 > LM77_TEMP_MAX
             then (False, printk ''lm77: error: temp_min out of bounds'' k) else (passed, k));
          (passed, k) =
            (if check ! 1 < LM77_TEMP_MIN \<or> check ! 1 > LM77_TEMP_MAX
             then (False, printk ''lm77: error: temp_max out of bounds'' k) else (passed, k));
          (passed, k) =
            (if check ! 0 \<ge> check ! 1
             then (False, printk ''lm77: error; temp_min > temp_max'' k) else (passed, k));
          (passed, k) =
            (if check ! 0 + past_check \<ge> check ! 1 - past_check
             then (False, printk ''lm77: error: overlapping setpoints'' k) else (passed, k))
      in (passed, k))"

text \<open>
  Third part, run when the checks passed: each given value is stored in the cache and
  written to its register; the return values of the writes are dropped. The branch
  for \<open>new[3]\<close> stores into \<open>temp_max\<close>, as the source does.
\<close>

definition lm77_proc_temp_commit ::
  "'b smbus \<Rightarrow> int list \<Rightarrow> lm77_data \<times> 'b kernel \<Rightarrow> lm77_data \<times> 'b kernel" where
  "lm77_proc_temp_commit bus new st =
     (let (data, k) = st;
          (data, k) =
            (if new ! 0 \<noteq> LM77_SC_NOTSET
             then (data\<lparr>temp_min := new ! 0\<rparr>,
                   snd (lm77_write_value bus LM77_REG_T_LOW (LM77_TEMP_TO_REG (new ! 0)) k))
             else (data, k));
          (data, k) =
            (if new ! 1 \<noteq> LM77_SC_NOTSET
             then (data\<lparr>temp_max := new ! 1\<rparr>,
                   snd (lm77_write_value bus LM77_REG_T_HIGH (LM77_TEMP_TO_REG (new ! 1)) k))
             else (data, k));
          (data, k) =
            (if new ! 2 \<noteq> LM77_SC_NOTSET
             then (data\<lparr>temp_crit := new ! 2\<rparr>,
                   snd (lm77_write_value bus LM77_REG_T_CRIT (LM77_TEMP_TO_REG (new ! 2)) k))
             else (data, k));
          (data, k) =
            (if new ! 3 \<noteq> LM77_SC_NOTSET
             then (data\<lparr>temp_max := new ! 3\<rparr>,
                   snd (lm77_write_value bus LM77_REG_T_HYST (LM77_TEMP_TO_REG (new ! 3)) k))
             else (data, k))
      in (data, printk ''lm77: changes applied.'' k))"

definition lm77_proc_temp_write ::
  "'b smbus \<Rightarrow> int \<Rightarrow> int list \<Rightarrow> lm77_data \<times> 'b kernel \<Rightarrow> lm77_data \<times> 'b kernel" where
  "lm77_proc_temp_write bus past_check new st =
     (case lm77_proc_temp_check past_check new (fst st) (snd st) of
        (passed, k) \<Rightarrow>
          if passed then lm77_proc_temp_commit bus new (fst st, k)
          else (fst st, printk ''lm77: changes not applied.'' k))"

definition lm77_proc_temp ::
  "'b smbus \<Rightarrow> nat \<Rightarrow> ulong \<Rightarrow> int \<Rightarrow> operation \<Rightarrow> int \<Rightarrow> int \<Rightarrow> (nat \<Rightarrow> int) \<Rightarrow>
   lm77_data \<times> 'b kernel \<Rightarrow> (int \<times> (nat \<Rightarrow> int)) \<times> lm77_data \<times> 'b kernel" where
  "lm77_proc_temp bus HZ jiffies past_check operation ctl_name nrels_mag results st =
     (case operation of
        SENSORS_PROC_REAL_INFO \<Rightarrow> ((1, results), st)
      | SENSORS_PROC_REAL_READ \<Rightarrow>
          (case lm77_update_client bus HZ jiffies st of
             (data, k) \<Rightarrow>
               if ctl_name = LM77_SYSCTL_TEMP then
                 ((3, results(0 := temp_min data, 1 := temp_max data, 2 := temp_input data)),
                  data, k)
               else if ctl_name = LM77_SYSCTL_TEMP_CRIT then
                 ((1, results(0 := temp_crit data)), data, k)
               else if ctl_name = LM77_SYSCTL_TEMP_HYST then
                 ((1, results(0 := temp_hyst data)), data, k)
               else ((nrels_mag, results), data, k))
      | SENSORS_PROC_REAL_WRITE \<Rightarrow>
          ((nrels_mag, results),
           lm77_proc_temp_write bus past_check
             (lm77_proc_temp_new ctl_name nrels_mag results) st))"

definition lm77_proc_alarms ::
  "'b smbus \<Rightarrow> nat \<Rightarrow> ulong \<Rightarrow> operation \<Rightarrow> int \<Rightarrow> (nat \<Rightarrow> int) \<Rightarrow>
   lm77_data \<times> 'b kernel \<Rightarrow> (int \<times> (nat \<Rightarrow> int)) \<times> lm77_data \<times> 'b kernel" where
  "lm77_proc_alarms bus HZ jiffies operation nrels_mag results st =
     (case operation of
        SENSORS_PROC_REAL_INFO \<Rightarrow> ((0, results), st)
      | SENSORS_PROC_REAL_READ \<Rightarrow>
          (case lm77_update_client bus HZ jiffies st of
             (data, k) \<Rightarrow> ((1, results(0 := uint (alarms data))), data, k))
      | SENSORS_PROC_REAL_WRITE \<Rightarrow>
          ((0, results), fst st, printk ''lm77: alarms: read-only'' (snd st)))"

subsection \<open>lm77_init_client and lm77_detect\<close>

text \<open>
  \<open>lm77_init_client\<close> reads the configuration register into \<open>conf\<close>, prints a line
  when the shutdown bit is set, and writes \<open>new\<close>, which is 0. \<open>LM77_FAULT_QUEUE\<close> is
  not defined, so the line that would change \<open>conf\<close> is not compiled.
\<close>

definition lm77_init_client :: "'b smbus \<Rightarrow> 'b kernel \<Rightarrow> 'b kernel" where
  "lm77_init_client bus k =
     (case lm77_read_value bus LM77_REG_CONF k of
        (r, k) \<Rightarrow>
          (let conf = (word_of_int r :: u16);
               new = (0 :: u16);
               k = (if uint conf AND LM77_CONF_SHUTDOWN \<noteq> 0
                    then printk ''lm77: waking up bus %d, io %x'' k else k)
           in snd (lm77_write_value bus LM77_REG_CONF new k)))"

text \<open>
  The body of the loop \<open>for (i = 8; i <= 0xff; i += 8)\<close>: the condition of its \<open>if\<close>,
  a chain of \<open>||\<close> that stops reading at the first register that differs. The result
  is \<open>True\<close> when the condition holds, that is when the code jumps to \<open>error1\<close>.
\<close>

definition lm77_detect_differs ::
  "'b smbus \<Rightarrow> int \<Rightarrow> int \<Rightarrow> int \<Rightarrow> int \<Rightarrow> int \<Rightarrow> int \<Rightarrow> 'b kernel \<Rightarrow> bool \<times> 'b kernel" where
  "lm77_detect_differs bus i conf hyst crit minv maxv k =
     (case i2c_smbus_read_byte_data bus (word_of_int (i + 1)) k of (r, k) \<Rightarrow>
      if r \<noteq> conf then (True, k) else
      case i2c_smbus_read_word_data bus (word_of_int (i + 2)) k of (r, k) \<Rightarrow>
      if r \<noteq> hyst then (True, k) else
      case i2c_smbus_read_word_data bus (word_of_int (i + 3)) k of (r, k) \<Rightarrow>
      if r \<noteq> crit then (True, k) else
      case i2c_smbus_read_word_data bus (word_of_int (i + 4)) k of (r, k) \<Rightarrow>
      if r \<noteq> minv then (True, k) else
      case i2c_smbus_read_word_data bus (word_of_int (i + 5)) k of (r, k) \<Rightarrow>
      (r \<noteq> maxv, k))"

text \<open>The loop: \<open>False\<close> when it left by \<open>goto error1\<close>, \<open>True\<close> when it ran to its end.\<close>

function lm77_detect_cycle ::
  "'b smbus \<Rightarrow> int \<Rightarrow> int \<Rightarrow> int \<Rightarrow> int \<Rightarrow> int \<Rightarrow> int \<Rightarrow> 'b kernel \<Rightarrow> bool \<times> 'b kernel" where
  "lm77_detect_cycle bus i conf hyst crit minv maxv k =
     (if i \<le> 0xff then
        (case lm77_detect_differs bus i conf hyst crit minv maxv k of
           (differs, k') \<Rightarrow>
             if differs then (False, k')
             else lm77_detect_cycle bus (i + 8) conf hyst crit minv maxv k')
      else (True, k))"
  by pat_completeness auto
termination
  by (relation "measure (\<lambda>(bus, i, rest). nat (0x100 - i))") auto

declare lm77_detect_cycle.simps [simp del]

text \<open>
  One of the three rounds of the last test: read register 0, then registers 6 and 7,
  which must return the value just read. \<open>True\<close> when both do.
\<close>

definition lm77_detect_last_read :: "'b smbus \<Rightarrow> 'b kernel \<Rightarrow> bool \<times> 'b kernel" where
  "lm77_detect_last_read bus k =
     (case i2c_smbus_read_word_data bus 0 k of (cur, k) \<Rightarrow>
      case i2c_smbus_read_word_data bus 6 k of (r, k) \<Rightarrow>
      if r \<noteq> cur then (False, k) else
      case i2c_smbus_read_word_data bus 7 k of (r, k) \<Rightarrow>
      (r = cur, k))"

text \<open>
  The block run when \<open>kind < 0\<close>: \<open>False\<close> when it jumps to \<open>error1\<close>. The words are
  compared as the bus returned them (not byte-swapped), so \<open>0x00f0\<close> selects the top
  four bits of a register.
\<close>

definition lm77_detect_probe :: "'b smbus \<Rightarrow> 'b kernel \<Rightarrow> bool \<times> 'b kernel" where
  "lm77_detect_probe bus k =
     (case i2c_smbus_read_word_data bus 0 k of (cur, k) \<Rightarrow>
      case i2c_smbus_read_byte_data bus 1 k of (conf, k) \<Rightarrow>
      case i2c_smbus_read_word_data bus 2 k of (hyst, k) \<Rightarrow>
      case i2c_smbus_read_word_data bus 3 k of (crit, k) \<Rightarrow>
      case i2c_smbus_read_word_data bus 4 k of (minv, k) \<Rightarrow>
      case i2c_smbus_read_word_data bus 5 k of (maxv, k) \<Rightarrow>
      case lm77_detect_cycle bus 8 conf hyst crit minv maxv k of (same, k) \<Rightarrow>
      if \<not> same then (False, k)
      else if ((cur AND 0x00f0) \<noteq> 0xf0 \<and> (cur AND 0x00f0) \<noteq> 0x0)
           \<or> ((hyst AND 0x00f0) \<noteq> 0xf0 \<and> (hyst AND 0x00f0) \<noteq> 0x0)
           \<or> ((crit AND 0x00f0) \<noteq> 0xf0 \<and> (crit AND 0x00f0) \<noteq> 0x0)
           \<or> ((minv AND 0x00f0) \<noteq> 0xf0 \<and> (minv AND 0x00f0) \<noteq> 0x0)
           \<or> ((maxv AND 0x00f0) \<noteq> 0xf0 \<and> (maxv AND 0x00f0) \<noteq> 0x0)
      then (False, k)
      else if conf AND 0xe0 \<noteq> 0 then (False, k)
      else
        case lm77_detect_last_read bus k of (ok, k) \<Rightarrow>
        if \<not> ok then (False, k) else
        case lm77_detect_last_read bus k of (ok, k) \<Rightarrow>
        if \<not> ok then (False, k) else
        lm77_detect_last_read bus k)"

text \<open>
  What the kernel answers during \<open>lm77_detect\<close>, and what the call leaves behind. The
  chip kind \<open>lm77\<close> is 1 (the enumeration made by \<open>SENSORS_INSMOD_1\<close>) and \<open>ENOMEM\<close> is
  12. \<open>pr_debug\<close> prints nothing.
\<close>

record detect_env =
  is_isa_adapter :: bool
  check_functionality :: bool
  kmalloc_ok :: bool
  attach_client_ret :: int
  register_entry_ret :: int

record 'b detect_result =
  ret :: int
  allocated :: bool
  freed :: bool
  attached :: bool
  client_data :: "lm77_data option"
  kern :: "'b kernel"

definition lm77 :: int where "lm77 = 1"

definition ENOMEM :: int where "ENOMEM = 12"

text \<open>After \<open>memset(data, 0, sizeof(struct lm77_data))\<close>.\<close>

definition zeroed_data :: lm77_data where
  "zeroed_data =
     \<lparr>sysctl_id = 0, valid = False, last_updated = 0, temp_input = 0, temp_crit = 0,
      temp_min = 0, temp_max = 0, temp_hyst = 0, alarms = 0\<rparr>"

text \<open>The exits through \<open>error1\<close>, \<open>error3\<close> and \<open>error4\<close>: \<open>kfree(data); return err\<close>.\<close>

definition lm77_detect_error :: "int \<Rightarrow> 'b kernel \<Rightarrow> 'b detect_result" where
  "lm77_detect_error err k =
     \<lparr>ret = err, allocated = True, freed = True, attached = False, client_data = None,
      kern = k\<rparr>"

definition lm77_detect :: "'b smbus \<Rightarrow> detect_env \<Rightarrow> int \<Rightarrow> 'b kernel \<Rightarrow> 'b detect_result" where
  "lm77_detect bus env kind k =
     (let err = 0 in
      if is_isa_adapter env then
        \<lparr>ret = 0, allocated = False, freed = False, attached = False, client_data = None,
         kern = printk ''lm77.o: lm77_detect called for an ISA bus adapter?!?'' k\<rparr>
      else if \<not> check_functionality env then
        \<lparr>ret = err, allocated = False, freed = False, attached = False, client_data = None,
         kern = k\<rparr>
      else if \<not> kmalloc_ok env then
        \<lparr>ret = - ENOMEM, allocated = False, freed = False, attached = False,
         client_data = None, kern = k\<rparr>
      else
        (let data = zeroed_data in
         case (if kind < 0 then lm77_detect_probe bus k else (True, k)) of
           (ok, k) \<Rightarrow>
             if \<not> ok then lm77_detect_error err k
             else
               (let kind = (if kind \<le> 0 then lm77 else kind) in
                if kind \<noteq> lm77 then lm77_detect_error err k
                else
                  (let data = data\<lparr>valid := False\<rparr>;
                       err = attach_client_ret env in
                   if err \<noteq> 0 then lm77_detect_error err k
                   else
                     (let i = register_entry_ret env in
                      if i < 0 then lm77_detect_error i k
                      else
                        \<lparr>ret = 0, allocated = True, freed = False, attached = True,
                         client_data = Some (data\<lparr>sysctl_id := i\<rparr>),
                         kern = lm77_init_client bus k\<rparr>)))))"

subsection \<open>Concrete buses and states\<close>

text \<open>
  Inputs on which the functions are evaluated: a bus on which every transfer fails
  with -1, a bus that answers 0 to everything, a bus that answers with a running
  count, a kernel in which nothing has happened yet, a client whose cache holds
  low 10000, high 70000, critical 90000 and hysteresis 2000, a kernel that lets
  \<open>lm77_detect\<close> go through, and a \<open>results\<close> buffer of zeros.
\<close>

definition dead_bus :: "unit smbus" where
  "dead_bus s op = (- 1, s)"

definition zero_bus :: "unit smbus" where
  "zero_bus s op = (0, s)"

definition counting_bus :: "int smbus" where
  "counting_bus s op = (s, s + 1)"

definition idle_kernel :: "unit kernel" where
  "idle_kernel = \<lparr>chip = (), issued = [], klog = []\<rparr>"

definition cached_data :: lm77_data where
  "cached_data =
     \<lparr>sysctl_id = 0, valid = True, last_updated = 0, temp_input = 25000, temp_crit = 90000,
      temp_min = 10000, temp_max = 70000, temp_hyst = 2000, alarms = 0\<rparr>"

definition good_env :: detect_env where
  "good_env =
     \<lparr>is_isa_adapter = False, check_functionality = True, kmalloc_ok = True,
      attach_client_ret = 0, register_entry_ret = 3\<rparr>"

definition no_results :: "nat \<Rightarrow> int" where
  "no_results i = 0"

subsection \<open>The identification tests, stated on the bus's replies\<close>

text \<open>
  The tests of the identification, written from their description and not from the
  control flow of \<open>lm77_detect\<close>: what a bus replies to a sequence of transfers
  issued one after the other, the sequence of reads the identification is made of,
  and the four ways in which the replies can fail it. They are compared with
  \<open>lm77_detect\<close> in the properties below.
\<close>

primrec bus_replies :: "'b smbus \<Rightarrow> 'b \<Rightarrow> bus_op list \<Rightarrow> int list" where
  "bus_replies bus s [] = []"
| "bus_replies bus s (op # ops) = fst (bus s op) # bus_replies bus (snd (bus s op)) ops"

primrec bus_state :: "'b smbus \<Rightarrow> 'b \<Rightarrow> bus_op list \<Rightarrow> 'b" where
  "bus_state bus s [] = s"
| "bus_state bus s (op # ops) = bus_state bus (snd (bus s op)) ops"

text \<open>Registers 0 to 5: a word read each, except register 1, a byte read.\<close>

definition probe_first :: "bus_op list" where
  "probe_first =
     [Read_Word_Data 0, Read_Byte_Data 1, Read_Word_Data 2, Read_Word_Data 3,
      Read_Word_Data 4, Read_Word_Data 5]"

text \<open>Registers 1 to 5 again at the offset \<open>i\<close>, and at every offset 8, 16, ..., 248.\<close>

definition probe_alias_at :: "int \<Rightarrow> bus_op list" where
  "probe_alias_at i =
     [Read_Byte_Data (word_of_int (i + 1)), Read_Word_Data (word_of_int (i + 2)),
      Read_Word_Data (word_of_int (i + 3)), Read_Word_Data (word_of_int (i + 4)),
      Read_Word_Data (word_of_int (i + 5))]"

definition probe_alias :: "bus_op list" where
  "probe_alias = concat (map (\<lambda>j. probe_alias_at (8 * int j)) [1..<32])"

text \<open>Register 0 and then registers 6 and 7, three times over.\<close>

definition probe_shadow :: "bus_op list" where
  "probe_shadow = [Read_Word_Data 0, Read_Word_Data 6, Read_Word_Data 7]"

text \<open>
  Register aliasing: the replies to the 31 re-reads of registers 1 to 5 are not 31
  copies of the five values first read.
\<close>

definition aliasing_mismatch :: "'b smbus \<Rightarrow> 'b \<Rightarrow> bool" where
  "aliasing_mismatch bus s =
     (bus_replies bus (bus_state bus s probe_first) probe_alias \<noteq>
      concat (replicate 31 (tl (bus_replies bus s probe_first))))"

text \<open>
  Sign bits: one of the five words first read has top four bits that are neither all
  ones nor all zeros. A word arrives with its high byte in the low byte of the reply,
  so the top four bits of the register are the bits \<open>0x00f0\<close> of the reply.
\<close>

definition sign_bits_invalid :: "'b smbus \<Rightarrow> 'b \<Rightarrow> bool" where
  "sign_bits_invalid bus s =
     list_ex (\<lambda>v. v AND 0x00f0 \<noteq> 0xf0 \<and> v AND 0x00f0 \<noteq> 0)
       (hd (bus_replies bus s probe_first) # tl (tl (bus_replies bus s probe_first)))"

text \<open>Unused bits: one of the top three bits of the configuration byte is set.\<close>

definition conf_unused_bits_set :: "'b smbus \<Rightarrow> 'b \<Rightarrow> bool" where
  "conf_unused_bits_set bus s = (bus_replies bus s probe_first ! 1 AND 0xe0 \<noteq> 0)"

text \<open>
  Shadow registers: in one of the three rounds that follow the re-reads, register 6 or
  register 7 does not return the value just read from register 0.
\<close>

definition shadow_round_mismatch :: "int list \<Rightarrow> bool" where
  "shadow_round_mismatch rs = (rs ! 1 \<noteq> rs ! 0 \<or> rs ! 2 \<noteq> rs ! 0)"

definition shadow_mismatch :: "'b smbus \<Rightarrow> 'b \<Rightarrow> bool" where
  "shadow_mismatch bus s =
     (let s1 = bus_state bus s (probe_first @ probe_alias);
          s2 = bus_state bus s1 probe_shadow;
          s3 = bus_state bus s2 probe_shadow
      in shadow_round_mismatch (bus_replies bus s1 probe_shadow)
         \<or> shadow_round_mismatch (bus_replies bus s2 probe_shadow)
         \<or> shadow_round_mismatch (bus_replies bus s3 probe_shadow))"

text \<open>
  Buses that fail one test each: a word with top bits \<open>0111\<close>, a configuration byte
  \<open>0xe0\<close>, and a register 6 that does not return what register 0 returned.
\<close>

definition sign_bus :: "unit smbus" where
  "sign_bus s op = (case op of Read_Word_Data r \<Rightarrow> 0x70 | _ \<Rightarrow> 0, s)"

definition conf_bus :: "unit smbus" where
  "conf_bus s op = (case op of Read_Byte_Data r \<Rightarrow> 0xe0 | _ \<Rightarrow> 0, s)"

definition shadow_bus :: "unit smbus" where
  "shadow_bus s op = (case op of Read_Word_Data r \<Rightarrow> (if r = 6 then 1 else 0) | _ \<Rightarrow> 0, s)"

section \<open>Properties\<close>

subsection \<open>The register codec\<close>

text \<open>
  After the clamp the quotient by 500 lies between -110 and 250. For each of these 361
  quotients the encoder's shift, sign step and cast, followed by the decoder, give the
  quotient times 500; the kernel evaluates both functions on every one of them.
\<close>

lemma codec_steps:
  "\<forall>q \<in> {- 110..250::int}.
     LM77_TEMP_FROM_REG
       (word_of_int (let ntemp = push_bit 3 q
                     in if ntemp AND 0x200 \<noteq> 0 then ntemp OR 0xe000 else ntemp)) = q * 500"
  by code_simp

lemma sdiv_500_range:
  fixes v :: int
  assumes "- 55000 \<le> v" "v \<le> 125000"
  shows "- 110 \<le> v sdiv 500 \<and> v sdiv 500 \<le> 250"
proof (cases "0 \<le> v")
  case True
  then have "v sdiv 500 = v div 500"
    by (simp add: signed_divide_int_def sgn_if)
  with assms True show ?thesis by linarith
next
  case False
  then have "v sdiv 500 = - ((- v) div 500)"
    by (simp add: signed_divide_int_def sgn_if)
  with assms False show ?thesis by linarith
qed

text \<open>
  Claim C1. For every temperature \<open>v\<close> in millidegrees with
  \<open>-55000 \<le> v \<le> 125000\<close>, decoding the encoded register value gives \<open>v\<close> truncated
  toward zero to a multiple of 500:
  \<open>LM77_TEMP_FROM_REG (LM77_TEMP_TO_REG v) = (v / 500) * 500\<close> with C's division.
\<close>

theorem codec_roundtrip:
  assumes "- 55000 \<le> v" "v \<le> 125000"
  shows "LM77_TEMP_FROM_REG (LM77_TEMP_TO_REG v) = (v sdiv 500) * 500"
proof -
  have lim: "SENSORS_LIMIT v LM77_TEMP_MIN LM77_TEMP_MAX = v"
    using assms by (simp add: SENSORS_LIMIT_def LM77_TEMP_MIN_def LM77_TEMP_MAX_def)
  have "v sdiv 500 \<in> {- 110..250}"
    using sdiv_500_range [OF assms] by simp
  with codec_steps have
    "LM77_TEMP_FROM_REG
       (word_of_int (let ntemp = push_bit 3 (v sdiv 500)
                     in if ntemp AND 0x200 \<noteq> 0 then ntemp OR 0xe000 else ntemp))
     = (v sdiv 500) * 500"
    by blast
  then show ?thesis
    by (simp add: LM77_TEMP_TO_REG_def lim Let_def)
qed

theorem codec_roundtrip_witness:
  "- 55000 \<le> (- 750 :: int) \<and> (- 750 :: int) \<le> 125000
   \<and> LM77_TEMP_FROM_REG (LM77_TEMP_TO_REG (- 750)) = - 500"
  using codec_roundtrip [of "- 750"] by (simp add: signed_divide_int_def)

text \<open>
  Claim C7. The claim says that the register values for -500 and 500 differ only in
  their top 4 bits. The encoder returns \<open>0xFFF8\<close> for -500 and \<open>0x0008\<close> for 500: the
  top 4 bits are all ones for -500 and all zero for 500 and the low 4 bits agree, but
  the two values differ in every bit from 4 to 15, as the two's complement of a 10-bit
  quantity must.
\<close>

theorem encode_half_degree:
  "LM77_TEMP_TO_REG (- 500) = 0xFFF8 \<and> LM77_TEMP_TO_REG 500 = 0x0008
   \<and> drop_bit 12 (LM77_TEMP_TO_REG (- 500)) = 0xF \<and> drop_bit 12 (LM77_TEMP_TO_REG 500) = 0
   \<and> LM77_TEMP_TO_REG (- 500) XOR LM77_TEMP_TO_REG 500 = 0xFFF0"
  by code_simp

text \<open>The two values do not agree on their low 12 bits.\<close>

theorem encode_half_degree_low_bits_differ:
  "\<not> ((LM77_TEMP_TO_REG (- 500) XOR LM77_TEMP_TO_REG 500) AND 0x0FFF = 0)"
  by code_simp

subsection \<open>Register access\<close>

lemma regs_distinct:
  "LM77_REG_TEMP \<noteq> LM77_REG_CONF" "LM77_REG_T_HYST \<noteq> LM77_REG_CONF"
  "LM77_REG_T_CRIT \<noteq> LM77_REG_CONF" "LM77_REG_T_LOW \<noteq> LM77_REG_CONF"
  "LM77_REG_T_HIGH \<noteq> LM77_REG_CONF"
  by (simp_all add: LM77_REG_TEMP_def LM77_REG_CONF_def LM77_REG_T_HYST_def
      LM77_REG_T_CRIT_def LM77_REG_T_LOW_def LM77_REG_T_HIGH_def)

lemma xfer_eq:
  "i2c_smbus_xfer bus op k =
     (fst (bus (chip k) op), k\<lparr>chip := snd (bus (chip k) op), issued := issued k @ [op]\<rparr>)"
  by (simp add: i2c_smbus_xfer_def split: prod.splits)

lemma read_value_word:
  "reg \<noteq> LM77_REG_CONF \<Longrightarrow>
   lm77_read_value bus reg k =
     (uint (swab16 (word_of_int (fst (bus (chip k) (Read_Word_Data reg))))),
      k\<lparr>chip := snd (bus (chip k) (Read_Word_Data reg)),
        issued := issued k @ [Read_Word_Data reg]\<rparr>)"
  by (simp add: lm77_read_value_def i2c_smbus_read_word_data_def xfer_eq)

lemma write_value_word:
  "reg \<noteq> LM77_REG_CONF \<Longrightarrow>
   snd (lm77_write_value bus reg v k) =
     k\<lparr>chip := snd (bus (chip k) (Write_Word_Data reg (swab16 v))),
       issued := issued k @ [Write_Word_Data reg (swab16 v)]\<rparr>"
  by (simp add: lm77_write_value_def i2c_smbus_write_word_data_def xfer_eq)

text \<open>What the decoder makes of a failed read, whose return value is -1.\<close>

lemma decode_failed_read:
  "LM77_TEMP_FROM_REG (swab16 (- 1)) = - 500"
  "(word_of_int (uint (swab16 (- 1)) AND LM77_ALARM_MASK) :: u8) = 7"
  by code_simp+

subsection \<open>The refresh\<close>

lemma update_stale:
  assumes "jiffies - last_updated data > of_nat (HZ + HZ div 2)
           \<or> jiffies < last_updated data \<or> \<not> valid data"
  shows "issued (snd (lm77_update_client bus HZ jiffies (data, k))) =
           issued k @ [Read_Word_Data LM77_REG_TEMP, Read_Word_Data LM77_REG_T_HYST,
                       Read_Word_Data LM77_REG_T_CRIT, Read_Word_Data LM77_REG_T_LOW,
                       Read_Word_Data LM77_REG_T_HIGH, Read_Word_Data LM77_REG_TEMP]"
    and "valid (fst (lm77_update_client bus HZ jiffies (data, k)))"
    and "last_updated (fst (lm77_update_client bus HZ jiffies (data, k))) = jiffies"
  using assms
  by (simp_all add: lm77_update_client_def read_value_word regs_distinct)

lemma update_fresh:
  assumes "\<not> (jiffies - last_updated data > of_nat (HZ + HZ div 2)
              \<or> jiffies < last_updated data \<or> \<not> valid data)"
  shows "lm77_update_client bus HZ jiffies (data, k) = (data, k)"
  using assms by (simp add: lm77_update_client_def)

text \<open>
  The wrapping subtraction of the source against the difference of the two clock
  values as integers: they can only disagree when the clock is behind the last
  update, and then the second test fires.
\<close>

lemma stale_iff:
  fixes jiffies last :: ulong
  assumes "n < 2 ^ 32"
  shows "(jiffies - last > of_nat n \<or> jiffies < last)
         \<longleftrightarrow> (int n < uint jiffies - uint last \<or> jiffies < last)"
proof (cases "jiffies < last")
  case True
  then show ?thesis by simp
next
  case False
  then have "last \<le> jiffies" by simp
  then have "uint (jiffies - last) = uint jiffies - uint last"
    by (simp add: uint_minus_simple_alt)
  moreover have "uint (of_nat n :: ulong) = int n"
    using assms by (simp add: uint_nat unat_of_nat)
  ultimately show ?thesis by (simp add: word_less_def)
qed

text \<open>
  Claim C6. A request re-reads the registers over the bus exactly when the cache is
  not valid, or the clock is more than \<open>HZ + HZ / 2\<close> jiffies past the last refresh, or
  the clock is behind the last refresh. In that case the transfers issued are the word
  reads of registers 0, 2, 3, 4, 5 and once more 0 (the five registers; the
  temperature register a second time for the alarm bits), and any later request
  within the window changes nothing and issues no transfer. Otherwise the call
  returns the cache and the kernel as they were.
\<close>

theorem refresh_policy:
  fixes jiffies :: ulong
  assumes "HZ + HZ div 2 < 2 ^ 32"
  shows "(if \<not> valid data \<or> int (HZ + HZ div 2) < uint jiffies - uint (last_updated data)
             \<or> jiffies < last_updated data
          then issued (snd (lm77_update_client bus HZ jiffies (data, k))) =
                 issued k @ [Read_Word_Data 0, Read_Word_Data 2, Read_Word_Data 3,
                             Read_Word_Data 4, Read_Word_Data 5, Read_Word_Data 0]
               \<and> (\<forall>t. jiffies \<le> t \<and> uint t - uint jiffies \<le> int (HZ + HZ div 2) \<longrightarrow>
                      lm77_update_client bus HZ t (lm77_update_client bus HZ jiffies (data, k)) =
                      lm77_update_client bus HZ jiffies (data, k))
          else lm77_update_client bus HZ jiffies (data, k) = (data, k))"
proof -
  let ?n = "HZ + HZ div 2"
  let ?r = "lm77_update_client bus HZ jiffies (data, k)"
  have iff: "(jiffies - last_updated data > of_nat ?n \<or> jiffies < last_updated data
              \<or> \<not> valid data)
     \<longleftrightarrow> (\<not> valid data \<or> int ?n < uint jiffies - uint (last_updated data)
          \<or> jiffies < last_updated data)"
    using stale_iff [OF assms, of jiffies "last_updated data"] by blast
  show ?thesis
  proof (cases "jiffies - last_updated data > of_nat ?n \<or> jiffies < last_updated data
                \<or> \<not> valid data")
    case False
    with iff update_fresh [OF False] show ?thesis by simp
  next
    case True
    note st = update_stale [OF True, of bus k]
    have reads: "issued (snd ?r) =
        issued k @ [Read_Word_Data 0, Read_Word_Data 2, Read_Word_Data 3,
                    Read_Word_Data 4, Read_Word_Data 5, Read_Word_Data 0]"
      using st(1) by (simp add: LM77_REG_TEMP_def LM77_REG_T_HYST_def
          LM77_REG_T_CRIT_def LM77_REG_T_LOW_def LM77_REG_T_HIGH_def)
    have again: "lm77_update_client bus HZ t ?r = ?r"
      if "jiffies \<le> t \<and> uint t - uint jiffies \<le> int ?n" for t
    proof -
      obtain d1 k1 where r: "?r = (d1, k1)" by (cases ?r)
      with st have d1: "valid d1" "last_updated d1 = jiffies" by simp_all
      have "\<not> (t - last_updated d1 > of_nat ?n \<or> t < last_updated d1 \<or> \<not> valid d1)"
        using stale_iff [OF assms, of t jiffies] that d1 by auto
      from update_fresh [OF this] r show ?thesis by simp
    qed
    from True iff reads again show ?thesis by simp
  qed
qed

theorem refresh_policy_witness:
  "issued (snd (lm77_update_client zero_bus 100 1100
                 (lm77_update_client zero_bus 100 1000 (zeroed_data, idle_kernel)))) =
     [Read_Word_Data 0, Read_Word_Data 2, Read_Word_Data 3,
      Read_Word_Data 4, Read_Word_Data 5, Read_Word_Data 0]"
  using refresh_policy
    [where HZ = 100 and data = zeroed_data and jiffies = 1000 and bus = zero_bus
       and k = idle_kernel]
  by (simp add: zeroed_data_def idle_kernel_def)

text \<open>
  Claim C3. The claim says that a failed read aborts the refresh and leaves the cache
  as it was. \<open>lm77_update_client\<close> has no failure path: in a triggered refresh the
  return value of a failed read is decoded like register data. When the reads fail
  (return -1), every temperature of the cache becomes -500 and the alarm bits become
  7, \<open>last_updated\<close> becomes the current time and \<open>valid\<close> is set; the function
  returns nothing to its caller.
\<close>

theorem refresh_ignores_failure:
  assumes "jiffies - last_updated data > of_nat (HZ + HZ div 2) \<or> jiffies < last_updated data
           \<or> \<not> valid data"
    and "\<forall>s reg. fst (bus s (Read_Word_Data reg)) = - 1"
  shows "fst (lm77_update_client bus HZ jiffies (data, k)) =
           data\<lparr>temp_input := - 500, temp_hyst := - 500, temp_crit := - 500, temp_min := - 500,
                temp_max := - 500, alarms := 7, last_updated := jiffies, valid := True\<rparr>"
  using assms
  by (simp add: lm77_update_client_def read_value_word regs_distinct decode_failed_read)

theorem refresh_ignores_failure_witness:
  "fst (lm77_update_client dead_bus 100 1000 (cached_data, idle_kernel)) =
     cached_data\<lparr>temp_input := - 500, temp_hyst := - 500, temp_crit := - 500, temp_min := - 500,
                temp_max := - 500, alarms := 7, last_updated := 1000, valid := True\<rparr>"
  using refresh_ignores_failure
    [where jiffies = 1000 and data = cached_data and HZ = 100 and bus = dead_bus
       and k = idle_kernel]
  by (simp add: cached_data_def dead_bus_def)

text \<open>
  On the bus where every transfer fails, a stale cache (last update at 0, clock at
  1000, \<open>HZ\<close> 100) is overwritten.
\<close>

theorem refresh_failure_mutates_cache:
  "fst (lm77_update_client dead_bus 100 1000 (cached_data, idle_kernel)) \<noteq> cached_data
   \<and> fst (lm77_update_client dead_bus 100 1000 (cached_data, idle_kernel)) =
       \<lparr>sysctl_id = 0, valid = True, last_updated = 1000, temp_input = - 500,
        temp_crit = - 500, temp_min = - 500, temp_max = - 500, temp_hyst = - 500,
        alarms = 7\<rparr>"
  by (simp add: lm77_update_client_def read_value_word regs_distinct dead_bus_def
      cached_data_def decode_failed_read)

subsection \<open>Writing the limits\<close>

lemma check_step:
  "(if c then (False, printk m k) else (p, k)) =
     (p \<and> \<not> c, k\<lparr>klog := klog k @ (if c then [m] else [])\<rparr>)"
  by (simp add: printk_def)

text \<open>
  The checks in one formula: with \<open>lo\<close> and \<open>hi\<close> the candidate low and high values,
  \<open>passed\<close> is the conjunction of the four tests and each failed test has added its
  line to the log, in the order of the tests.
\<close>

lemma check_result:
  assumes "lo = (if new ! 0 = LM77_SC_NOTSET then temp_min data else new ! 0)"
    and "hi = (if new ! 1 = LM77_SC_NOTSET then temp_max data else new ! 1)"
  shows "lm77_proc_temp_check past_check new data k =
      (LM77_TEMP_MIN \<le> lo \<and> lo \<le> LM77_TEMP_MAX \<and> LM77_TEMP_MIN \<le> hi \<and> hi \<le> LM77_TEMP_MAX
         \<and> lo < hi \<and> lo + past_check < hi - past_check,
       k\<lparr>klog := klog k
          @ (if lo < LM77_TEMP_MIN \<or> lo > LM77_TEMP_MAX
             then [''lm77: error: temp_min out of bounds''] else [])
          @ (if hi < LM77_TEMP_MIN \<or> hi > LM77_TEMP_MAX
             then [''lm77: error: temp_max out of bounds''] else [])
          @ (if lo \<ge> hi then [''lm77: error; temp_min > temp_max''] else [])
          @ (if lo + past_check \<ge> hi - past_check
             then [''lm77: error: overlapping setpoints''] else [])\<rparr>)"
  unfolding assms
  by (simp add: lm77_proc_temp_check_def Let_def check_step not_less not_le conj_assoc
      split del: if_split)

lemma write_cases:
  assumes "lm77_proc_temp_check past_check new data k = (passed, k')"
  shows "lm77_proc_temp_write bus past_check new (data, k) =
           (if passed then lm77_proc_temp_commit bus new (data, k')
            else (data, printk ''lm77: changes not applied.'' k'))"
  using assms by (simp add: lm77_proc_temp_write_def)

lemma commit_nothing:
  assumes "new ! 0 = LM77_SC_NOTSET" "new ! 1 = LM77_SC_NOTSET" "new ! 2 = LM77_SC_NOTSET"
    "new ! 3 = LM77_SC_NOTSET"
  shows "lm77_proc_temp_commit bus new (data, k) = (data, printk ''lm77: changes applied.'' k)"
  using assms by (simp add: lm77_proc_temp_commit_def)

lemma new_nothing:
  assumes "nrels_mag < 1"
  shows "lm77_proc_temp_new ctl_name nrels_mag results =
           [LM77_SC_NOTSET, LM77_SC_NOTSET, LM77_SC_NOTSET, LM77_SC_NOTSET]"
  using assms by (simp add: lm77_proc_temp_new_def Let_def)

text \<open>
  Claim C2, which the code does not meet. The claim asks for the margin check
  \<open>low + hysteresis < high - hysteresis\<close> on the candidate hysteresis, so that low 0,
  high 1000 must be rejected with hysteresis 600 and accepted with hysteresis 0. The
  source compares \<open>check[0] + check[4]\<close> with \<open>check[1] - check[4]\<close>, and \<open>check\<close> has
  four elements, the hysteresis being \<open>check[3]\<close>. For low 0 and high 1000 the verdict
  of the checks is therefore the same for every given and every cached hysteresis:
  it only depends on what lies past the array.
\<close>

theorem margin_check_ignores_hysteresis:
  "fst (lm77_proc_temp_check past_check [0, 1000, crit, hyst] data k) =
     (past_check + past_check < 1000)"
  by (simp add: check_result [of 0 _ _ 1000] LM77_SC_NOTSET_def LM77_TEMP_MIN_def
      LM77_TEMP_MAX_def)

text \<open>
  With a cached hysteresis of 600 and 0 in the slot past \<open>check\<close>, writing low 0 and
  high 1000 to the \<open>temp\<close> file is accepted: both values reach the cache and the
  registers.
\<close>

theorem margin_check_ignores_hysteresis_witness:
  "snd (lm77_proc_temp zero_bus 100 1000 0 SENSORS_PROC_REAL_WRITE LM77_SYSCTL_TEMP 2
          (no_results(0 := 0, 1 := 1000)) (cached_data\<lparr>temp_hyst := 600\<rparr>, idle_kernel)) =
     (cached_data\<lparr>temp_hyst := 600, temp_min := 0, temp_max := 1000\<rparr>,
      idle_kernel\<lparr>issued := [Write_Word_Data 4 0, Write_Word_Data 5 0x1000],
                    klog := [''lm77: changes applied.'']\<rparr>)"
proof -
  let ?new = "[0, 1000, LM77_SC_NOTSET, LM77_SC_NOTSET]"
  let ?data = "cached_data\<lparr>temp_hyst := 600\<rparr>"
  have new: "lm77_proc_temp_new LM77_SYSCTL_TEMP 2 (no_results(0 := 0, 1 := 1000)) = ?new"
    by (simp add: lm77_proc_temp_new_def Let_def)
  have "fst (lm77_proc_temp_check 0 ?new ?data idle_kernel)"
    using margin_check_ignores_hysteresis
      [where past_check = 0 and crit = LM77_SC_NOTSET and hyst = LM77_SC_NOTSET
         and data = ?data and k = idle_kernel]
    by simp
  moreover have "snd (lm77_proc_temp_check 0 ?new ?data idle_kernel) = idle_kernel"
    by (simp add: check_result [of 0 _ _ 1000] LM77_SC_NOTSET_def LM77_TEMP_MIN_def
        LM77_TEMP_MAX_def idle_kernel_def)
  ultimately have chk: "lm77_proc_temp_check 0 ?new ?data idle_kernel = (True, idle_kernel)"
    by (simp add: prod_eq_iff)
  have enc: "swab16 (LM77_TEMP_TO_REG 0) = 0" "swab16 (LM77_TEMP_TO_REG 1000) = 0x1000"
    by code_simp+
  have "snd (lm77_proc_temp zero_bus 100 1000 0 SENSORS_PROC_REAL_WRITE LM77_SYSCTL_TEMP 2
          (no_results(0 := 0, 1 := 1000)) (?data, idle_kernel)) =
        lm77_proc_temp_commit zero_bus ?new (?data, idle_kernel)"
    by (simp only: lm77_proc_temp_def operation.case snd_conv new write_cases [OF chk] if_True)
  also have "\<dots> = (cached_data\<lparr>temp_hyst := 600, temp_min := 0, temp_max := 1000\<rparr>,
      idle_kernel\<lparr>issued := [Write_Word_Data 4 0, Write_Word_Data 5 0x1000],
                    klog := [''lm77: changes applied.'']\<rparr>)"
    by (simp add: lm77_proc_temp_commit_def write_value_word regs_distinct enc
        LM77_SC_NOTSET_def zero_bus_def printk_def cached_data_def idle_kernel_def
        LM77_REG_T_LOW_def LM77_REG_T_HIGH_def LM77_REG_CONF_def)
  finally show ?thesis .
qed

text \<open>
  Claim C4, which the code does not meet. The claim asks that a field absent from the
  change is left as it was, in particular that a change of the hysteresis alone leaves
  the cached high setpoint unchanged. The branch for \<open>new[3]\<close> assigns
  \<open>data->temp_max = new[3]\<close>: an accepted change of the hysteresis alone overwrites the
  cached high setpoint with the hysteresis, leaves the cached hysteresis as it was, and
  writes the hysteresis register.
\<close>

theorem hysteresis_write_sets_temp_max:
  assumes "fst (lm77_proc_temp_check past_check
                  [LM77_SC_NOTSET, LM77_SC_NOTSET, LM77_SC_NOTSET, h] data k)"
    and "h \<noteq> LM77_SC_NOTSET"
  shows "(let r = lm77_proc_temp_write bus past_check
                    [LM77_SC_NOTSET, LM77_SC_NOTSET, LM77_SC_NOTSET, h] (data, k)
          in temp_max (fst r) = h \<and> temp_hyst (fst r) = temp_hyst data
             \<and> issued (snd r) =
                 issued k @ [Write_Word_Data LM77_REG_T_HYST (swab16 (LM77_TEMP_TO_REG h))])"
proof -
  let ?new = "[LM77_SC_NOTSET, LM77_SC_NOTSET, LM77_SC_NOTSET, h]"
  obtain k' where chk: "lm77_proc_temp_check past_check ?new data k = (True, k')"
    and k': "issued k' = issued k"
    using assms(1) check_result [of "temp_min data" ?new data "temp_max data" past_check k]
    by simp
  show ?thesis
    unfolding Let_def write_cases [OF chk]
    using assms(2)
    by (simp add: lm77_proc_temp_commit_def write_value_word regs_distinct printk_def k')
qed

text \<open>
  Writing 3000 to the \<open>temp_hyst\<close> file, with the cache at low 10000, high 70000 and
  hysteresis 2000: the cached high setpoint becomes 3000, nothing else in the cache
  changes, and the one transfer is the write of the hysteresis register.
\<close>

theorem hysteresis_write_sets_temp_max_witness:
  "fst (snd (lm77_proc_temp zero_bus 100 1000 0 SENSORS_PROC_REAL_WRITE LM77_SYSCTL_TEMP_HYST 1
               (no_results(0 := 3000)) (cached_data, idle_kernel))) =
     cached_data\<lparr>temp_max := 3000\<rparr>
   \<and> issued (snd (snd (lm77_proc_temp zero_bus 100 1000 0 SENSORS_PROC_REAL_WRITE
               LM77_SYSCTL_TEMP_HYST 1 (no_results(0 := 3000)) (cached_data, idle_kernel)))) =
       [Write_Word_Data 2 (swab16 (LM77_TEMP_TO_REG 3000))]
   \<and> temp_max cached_data = 70000 \<and> temp_hyst cached_data = 2000"
  using hysteresis_write_sets_temp_max
    [where past_check = 0 and h = 3000 and data = cached_data and k = idle_kernel
       and bus = zero_bus]
  by (simp add: lm77_proc_temp_def lm77_proc_temp_new_def LM77_SYSCTL_TEMP_HYST_def
      LM77_SYSCTL_TEMP_def LM77_SYSCTL_TEMP_CRIT_def
      lm77_proc_temp_write_def lm77_proc_temp_check_def lm77_proc_temp_commit_def
      write_value_word regs_distinct printk_def Let_def LM77_SC_NOTSET_def LM77_TEMP_MIN_def
      LM77_TEMP_MAX_def cached_data_def idle_kernel_def LM77_REG_T_HYST_def)

text \<open>
  Claim C5, which the code does not meet. The claim asks that no transfer is issued
  and the cache is left alone whenever one of the four checks fails, the fourth being
  the margin check on the candidate hysteresis. The source's fourth check reads the
  slot past \<open>check\<close> instead (the defect of claim C2), so a change whose margin is
  violated goes through whenever that slot lets it: writing low 0 and high 1000 while
  the candidate hysteresis, the cached one, is 500 or more stores both values in the
  cache and writes both registers, and the log says that the changes were applied.
\<close>

theorem margin_violation_is_written:
  assumes "past_check + past_check < 1000"
    and "0 + temp_hyst data \<ge> 1000 - temp_hyst data"
  shows "(let r = lm77_proc_temp_write bus past_check
                    [0, 1000, LM77_SC_NOTSET, LM77_SC_NOTSET] (data, k)
          in fst r = data\<lparr>temp_min := 0, temp_max := 1000\<rparr>
             \<and> issued (snd r) =
                 issued k @ [Write_Word_Data LM77_REG_T_LOW (swab16 (LM77_TEMP_TO_REG 0)),
                             Write_Word_Data LM77_REG_T_HIGH (swab16 (LM77_TEMP_TO_REG 1000))]
             \<and> klog (snd r) = klog k @ [''lm77: changes applied.''])"
proof -
  let ?new = "[0, 1000, LM77_SC_NOTSET, LM77_SC_NOTSET]"
  have chk: "lm77_proc_temp_check past_check ?new data k = (True, k)"
    using assms(1) check_result [of 0 ?new data 1000 past_check k]
    by (simp add: LM77_SC_NOTSET_def LM77_TEMP_MIN_def LM77_TEMP_MAX_def)
  show ?thesis
    unfolding Let_def write_cases [OF chk]
    by (simp add: lm77_proc_temp_commit_def write_value_word regs_distinct printk_def
        LM77_SC_NOTSET_def)
qed

text \<open>
  Writing low 0 and high 1000 to the \<open>temp\<close> file with a cached hysteresis of 500
  (the margin check of the claim fails: 0 + 500 is not below 1000 - 500) and 0 in the
  slot past \<open>check\<close>.
\<close>

theorem margin_violation_is_written_witness:
  "snd (lm77_proc_temp zero_bus 100 1000 0 SENSORS_PROC_REAL_WRITE LM77_SYSCTL_TEMP 2
          (no_results(0 := 0, 1 := 1000)) (cached_data\<lparr>temp_hyst := 500\<rparr>, idle_kernel)) =
     (cached_data\<lparr>temp_hyst := 500, temp_min := 0, temp_max := 1000\<rparr>,
      idle_kernel\<lparr>issued := [Write_Word_Data 4 0, Write_Word_Data 5 0x1000],
                    klog := [''lm77: changes applied.'']\<rparr>)"
proof -
  let ?new = "[0, 1000, LM77_SC_NOTSET, LM77_SC_NOTSET]"
  let ?data = "cached_data\<lparr>temp_hyst := 500\<rparr>"
  let ?r = "lm77_proc_temp_write zero_bus 0 ?new (?data, idle_kernel)"
  have new: "lm77_proc_temp_new LM77_SYSCTL_TEMP 2 (no_results(0 := 0, 1 := 1000)) = ?new"
    by (simp add: lm77_proc_temp_new_def Let_def)
  have enc: "swab16 (LM77_TEMP_TO_REG 0) = 0" "swab16 (LM77_TEMP_TO_REG 1000) = 0x1000"
    by code_simp+
  have "fst ?r = ?data\<lparr>temp_min := 0, temp_max := 1000\<rparr>
      \<and> issued (snd ?r) = issued idle_kernel @ [Write_Word_Data LM77_REG_T_LOW 0,
                                                Write_Word_Data LM77_REG_T_HIGH 0x1000]
      \<and> klog (snd ?r) = klog idle_kernel @ [''lm77: changes applied.'']"
    using margin_violation_is_written
      [where past_check = 0 and data = ?data and bus = zero_bus and k = idle_kernel]
    by (simp add: Let_def enc cached_data_def)
  moreover have "chip (snd ?r) = ()"
    by simp
  ultimately have "?r =
     (cached_data\<lparr>temp_hyst := 500, temp_min := 0, temp_max := 1000\<rparr>,
      idle_kernel\<lparr>issued := [Write_Word_Data 4 0, Write_Word_Data 5 0x1000],
                    klog := [''lm77: changes applied.'']\<rparr>)"
    by (simp add: prod_eq_iff idle_kernel_def cached_data_def LM77_REG_T_LOW_def
        LM77_REG_T_HIGH_def)
  then show ?thesis
    by (simp only: lm77_proc_temp_def operation.case snd_conv new)
qed

text \<open>
  Claim C8, which the code does not meet. The claim asks that a write without values
  is accepted when the cached values pass the four checks and rejected when they
  violate one, the fourth being the margin check on the cached hysteresis. The
  source's fourth check reads the slot past \<open>check\<close> instead (the defect of claim
  C2). With cached low and high in bounds and in order, the verdict is decided by
  that slot and not by the cached hysteresis: a cache whose margin is violated is
  accepted when the slot lets it through, and a cache that passes all four checks is
  rejected when the slot does not. In both cases no transfer is issued and the cache
  is unchanged.
\<close>

theorem write_without_values_ignores_hysteresis:
  assumes "nrels_mag < 1"
    and "LM77_TEMP_MIN \<le> temp_min data" "temp_min data \<le> LM77_TEMP_MAX"
    and "LM77_TEMP_MIN \<le> temp_max data" "temp_max data \<le> LM77_TEMP_MAX"
    and "temp_min data < temp_max data"
  shows
    "(let r = lm77_proc_temp bus HZ jiffies past_check SENSORS_PROC_REAL_WRITE ctl_name
                nrels_mag results (data, k)
      in fst (snd r) = data \<and> issued (snd (snd r)) = issued k
         \<and> (temp_min data + temp_hyst data \<ge> temp_max data - temp_hyst data
              \<and> temp_min data + past_check < temp_max data - past_check \<longrightarrow>
            klog (snd (snd r)) = klog k @ [''lm77: changes applied.''])
         \<and> (temp_min data + temp_hyst data < temp_max data - temp_hyst data
              \<and> temp_min data + past_check \<ge> temp_max data - past_check \<longrightarrow>
            klog (snd (snd r)) =
              klog k @ [''lm77: error: overlapping setpoints'',
                        ''lm77: changes not applied.'']))"
proof -
  let ?new = "[LM77_SC_NOTSET, LM77_SC_NOTSET, LM77_SC_NOTSET, LM77_SC_NOTSET]"
  let ?ok = "temp_min data + past_check < temp_max data - past_check"
  have r: "snd (lm77_proc_temp bus HZ jiffies past_check SENSORS_PROC_REAL_WRITE ctl_name
                  nrels_mag results (data, k)) =
           lm77_proc_temp_write bus past_check ?new (data, k)"
    by (simp add: lm77_proc_temp_def new_nothing [OF assms(1)])
  have new: "?new ! 0 = LM77_SC_NOTSET" "?new ! 1 = LM77_SC_NOTSET"
    "?new ! 2 = LM77_SC_NOTSET" "?new ! 3 = LM77_SC_NOTSET"
    by simp_all
  have chk: "lm77_proc_temp_check past_check ?new data k =
      (?ok, k\<lparr>klog := klog k @ (if ?ok then [] else [''lm77: error: overlapping setpoints''])\<rparr>)"
    using assms(2-6) check_result [of "temp_min data" ?new data "temp_max data" past_check k]
    by (simp add: not_less)
  have w: "lm77_proc_temp_write bus past_check ?new (data, k) =
      (data, k\<lparr>klog := klog k @ (if ?ok then [''lm77: changes applied.'']
                                   else [''lm77: error: overlapping setpoints'',
                                         ''lm77: changes not applied.''])\<rparr>)"
    by (simp add: write_cases [OF chk] commit_nothing [OF new] printk_def)
  show ?thesis
    unfolding Let_def r w by simp
qed

text \<open>
  A cache of low 0, high 1000, hysteresis 500 (margin violated) with 0 in the slot is
  accepted; the cache of low 10000, high 70000, hysteresis 2000 (all four checks
  hold) with 40000 in the slot is rejected for overlapping setpoints.
\<close>

theorem write_without_values_ignores_hysteresis_witness:
  "snd (lm77_proc_temp zero_bus 100 1000 0 SENSORS_PROC_REAL_WRITE LM77_SYSCTL_TEMP 0
          no_results
          (cached_data\<lparr>temp_min := 0, temp_max := 1000, temp_hyst := 500\<rparr>, idle_kernel)) =
     (cached_data\<lparr>temp_min := 0, temp_max := 1000, temp_hyst := 500\<rparr>,
      idle_kernel\<lparr>klog := [''lm77: changes applied.'']\<rparr>)
   \<and> snd (lm77_proc_temp zero_bus 100 1000 40000 SENSORS_PROC_REAL_WRITE LM77_SYSCTL_TEMP 0
          no_results (cached_data, idle_kernel)) =
     (cached_data,
      idle_kernel\<lparr>klog := [''lm77: error: overlapping setpoints'',
                            ''lm77: changes not applied.'']\<rparr>)"
  using write_without_values_ignores_hysteresis
    [where nrels_mag = 0 and bus = zero_bus and HZ = 100 and jiffies = 1000
       and past_check = 0 and ctl_name = LM77_SYSCTL_TEMP and results = no_results
       and data = "cached_data\<lparr>temp_min := 0, temp_max := 1000, temp_hyst := 500\<rparr>"
       and k = idle_kernel]
    write_without_values_ignores_hysteresis
    [where nrels_mag = 0 and bus = zero_bus and HZ = 100 and jiffies = 1000
       and past_check = 40000 and ctl_name = LM77_SYSCTL_TEMP and results = no_results
       and data = cached_data and k = idle_kernel]
  by (simp add: lm77_proc_temp_def lm77_proc_temp_new_def lm77_proc_temp_write_def
      lm77_proc_temp_check_def lm77_proc_temp_commit_def printk_def Let_def
      LM77_SC_NOTSET_def LM77_TEMP_MIN_def LM77_TEMP_MAX_def cached_data_def idle_kernel_def)

subsection \<open>Detection and initialisation\<close>

text \<open>
  A bus that answers every transfer with the same value passes the loop over the
  8-address boundaries and the test of registers 6 and 7; when the value is 0 it
  passes the whole block.
\<close>

lemma differs_const:
  assumes "\<forall>s op. fst (bus s op) = c"
  shows "\<not> fst (lm77_detect_differs bus i c c c c c k)"
  using assms
  by (simp add: lm77_detect_differs_def i2c_smbus_read_byte_data_def
      i2c_smbus_read_word_data_def xfer_eq)

lemma cycle_const:
  assumes "\<forall>s op. fst (bus s op) = c"
  shows "conf = c \<Longrightarrow> hyst = c \<Longrightarrow> crit = c \<Longrightarrow> minv = c \<Longrightarrow> maxv = c \<Longrightarrow>
         fst (lm77_detect_cycle bus i conf hyst crit minv maxv k)"
  using assms
proof (induction bus i conf hyst crit minv maxv k rule: lm77_detect_cycle.induct)
  case (1 bus i conf hyst crit minv maxv k)
  show ?case
  proof (cases "i \<le> 0xff")
    case False
    then show ?thesis by (subst lm77_detect_cycle.simps) simp
  next
    case True
    obtain d k' where d: "lm77_detect_differs bus i conf hyst crit minv maxv k = (d, k')"
      by (cases "lm77_detect_differs bus i conf hyst crit minv maxv k")
    with differs_const [OF "1.prems"(6), of i k] "1.prems"(1-5) have "\<not> d" by simp
    with "1.IH" [OF True d [symmetric]] "1.prems"
    have "fst (lm77_detect_cycle bus (i + 8) conf hyst crit minv maxv k')"
      by simp
    with True d \<open>\<not> d\<close> show ?thesis by (subst lm77_detect_cycle.simps) simp
  qed
qed

lemma last_read_const:
  assumes "\<forall>s op. fst (bus s op) = c"
  shows "fst (lm77_detect_last_read bus k)"
  using assms
  by (simp add: lm77_detect_last_read_def i2c_smbus_read_word_data_def xfer_eq)

lemma probe_zero:
  assumes "\<forall>s op. fst (bus s op) = 0"
  shows "fst (lm77_detect_probe bus k)"
proof -
  have "fst (lm77_detect_cycle bus 8 0 0 0 0 0 k')" for k'
    using cycle_const [OF assms] by simp
  moreover have "fst (lm77_detect_last_read bus k')" for k'
    using last_read_const [OF assms] by simp
  ultimately show ?thesis
    using assms
    by (simp add: lm77_detect_probe_def i2c_smbus_read_byte_data_def
        i2c_smbus_read_word_data_def xfer_eq case_prod_beta)
qed

lemma init_client_issued:
  "issued (lm77_init_client bus k) =
     issued k @ [Read_Byte_Data LM77_REG_CONF, Write_Byte_Data LM77_REG_CONF 0]"
  by (simp add: lm77_init_client_def lm77_read_value_def lm77_write_value_def
      i2c_smbus_read_byte_data_def i2c_smbus_write_byte_data_def xfer_eq printk_def Let_def)

lemma replies_append:
  "bus_replies bus s (xs @ ys) = bus_replies bus s xs @ bus_replies bus (bus_state bus s xs) ys"
  by (induction xs arbitrary: s) simp_all

lemma state_append:
  "bus_state bus s (xs @ ys) = bus_state bus (bus_state bus s xs) ys"
  by (induction xs arbitrary: s) simp_all

lemma differs_False:
  assumes "lm77_detect_differs bus i conf hyst crit minv maxv k = (False, k')"
  shows "bus_replies bus (chip k) (probe_alias_at i) = [conf, hyst, crit, minv, maxv]
         \<and> chip k' = bus_state bus (chip k) (probe_alias_at i)"
  using assms
  by (auto simp add: lm77_detect_differs_def probe_alias_at_def i2c_smbus_read_byte_data_def
      i2c_smbus_read_word_data_def xfer_eq split: if_splits)

lemma cycle_True:
  assumes "lm77_detect_cycle bus (8 * int j) conf hyst crit minv maxv k = (True, k')"
  shows "bus_replies bus (chip k) (concat (map (\<lambda>j. probe_alias_at (8 * int j)) [j..<32])) =
           concat (replicate (32 - j) [conf, hyst, crit, minv, maxv])
         \<and> chip k' = bus_state bus (chip k) (concat (map (\<lambda>j. probe_alias_at (8 * int j)) [j..<32]))"
  using assms
proof (induction "32 - j" arbitrary: j k)
  case 0
  then have "\<not> 8 * int j \<le> 0xff" by simp
  with "0.prems" have "k' = k"
    by (subst (asm) lm77_detect_cycle.simps) simp
  with 0 show ?case by simp
next
  case (Suc n)
  then have j: "j < 32" "8 * int j \<le> 0xff" by simp_all
  obtain d k1 where d: "lm77_detect_differs bus (8 * int j) conf hyst crit minv maxv k = (d, k1)"
    by (cases "lm77_detect_differs bus (8 * int j) conf hyst crit minv maxv k")
  from Suc.prems j d have nd: "\<not> d"
    and rest: "lm77_detect_cycle bus (8 * int (Suc j)) conf hyst crit minv maxv k1 = (True, k')"
    by (subst (asm) lm77_detect_cycle.simps, simp add: algebra_simps split: if_splits)+
  from d nd have here: "bus_replies bus (chip k) (probe_alias_at (8 * int j)) =
      [conf, hyst, crit, minv, maxv]"
    "chip k1 = bus_state bus (chip k) (probe_alias_at (8 * int j))"
    using differs_False [of bus "8 * int j" conf hyst crit minv maxv k k1] by simp_all
  from Suc.hyps(2) have n: "n = 32 - Suc j" by simp
  note ih = Suc.hyps(1) [OF n rest]
  have upt: "[j..<32] = j # [Suc j..<32]"
    using j(1) by (simp add: upt_conv_Cons)
  have rep: "32 - j = Suc (32 - Suc j)"
    using j(1) by simp
  from ih here show ?case
    unfolding upt rep by (simp add: replies_append state_append)
qed

lemma last_read_True:
  assumes "lm77_detect_last_read bus k = (True, k')"
  shows "\<not> shadow_round_mismatch (bus_replies bus (chip k) probe_shadow)
         \<and> chip k' = bus_state bus (chip k) probe_shadow"
  using assms
  by (auto simp add: lm77_detect_last_read_def probe_shadow_def shadow_round_mismatch_def
      i2c_smbus_read_word_data_def xfer_eq split: if_splits)

lemma differs_True:
  assumes "lm77_detect_differs bus i conf hyst crit minv maxv k = (True, k')"
  shows "bus_replies bus (chip k) (probe_alias_at i) \<noteq> [conf, hyst, crit, minv, maxv]"
  using assms
  by (auto simp add: lm77_detect_differs_def probe_alias_at_def i2c_smbus_read_byte_data_def
      i2c_smbus_read_word_data_def xfer_eq split: if_splits)

lemma cycle_False:
  assumes "lm77_detect_cycle bus (8 * int j) conf hyst crit minv maxv k = (False, k')"
  shows "bus_replies bus (chip k) (concat (map (\<lambda>j. probe_alias_at (8 * int j)) [j..<32])) \<noteq>
           concat (replicate (32 - j) [conf, hyst, crit, minv, maxv])"
  using assms
proof (induction "32 - j" arbitrary: j k)
  case 0
  then have "\<not> 8 * int j \<le> 0xff" by simp
  with "0.prems" show ?case
    by (subst (asm) lm77_detect_cycle.simps) simp
next
  case (Suc n)
  then have j: "j < 32" "8 * int j \<le> 0xff" by simp_all
  have upt: "[j..<32] = j # [Suc j..<32]"
    using j(1) by (simp add: upt_conv_Cons)
  have rep: "32 - j = Suc (32 - Suc j)"
    using j(1) by simp
  let ?v = "[conf, hyst, crit, minv, maxv]"
  let ?here = "bus_replies bus (chip k) (probe_alias_at (8 * int j))"
  let ?rest = "bus_replies bus (bus_state bus (chip k) (probe_alias_at (8 * int j)))
      (concat (map (\<lambda>j. probe_alias_at (8 * int j)) [Suc j..<32]))"
  have lens: "length ?here = length ?v"
    by (simp add: probe_alias_at_def)
  have parts: "?here @ ?rest = ?v @ concat (replicate (32 - Suc j) ?v)
      \<longleftrightarrow> ?here = ?v \<and> ?rest = concat (replicate (32 - Suc j) ?v)"
    by (rule append_eq_append_conv, rule disjI1, rule lens)
  have whole: "bus_replies bus (chip k) (concat (map (\<lambda>j. probe_alias_at (8 * int j)) [j..<32]))
      = ?here @ ?rest"
    unfolding upt by (simp add: replies_append)
  have copies: "concat (replicate (32 - j) ?v) = ?v @ concat (replicate (32 - Suc j) ?v)"
    unfolding rep by simp
  obtain d k1 where d: "lm77_detect_differs bus (8 * int j) conf hyst crit minv maxv k = (d, k1)"
    by (cases "lm77_detect_differs bus (8 * int j) conf hyst crit minv maxv k")
  show ?case
  proof (cases d)
    case True
    with d differs_True [of bus "8 * int j" conf hyst crit minv maxv k k1]
    have "?here \<noteq> ?v"
      by simp
    with parts show ?thesis
      unfolding whole copies by blast
  next
    case False
    with Suc.prems j d
    have rest: "lm77_detect_cycle bus (8 * int (Suc j)) conf hyst crit minv maxv k1 = (False, k')"
      by (subst (asm) lm77_detect_cycle.simps) (simp add: algebra_simps)
    from d False have here:
      "chip k1 = bus_state bus (chip k) (probe_alias_at (8 * int j))"
      using differs_False [of bus "8 * int j" conf hyst crit minv maxv k k1] by simp
    from Suc.hyps(2) have n: "n = 32 - Suc j" by simp
    from Suc.hyps(1) [OF n rest] here have "?rest \<noteq> concat (replicate (32 - Suc j) ?v)"
      by simp
    with parts show ?thesis
      unfolding whole copies by blast
  qed
qed

lemma last_read_False:
  assumes "lm77_detect_last_read bus k = (False, k')"
  shows "shadow_round_mismatch (bus_replies bus (chip k) probe_shadow)"
  using assms
  by (auto simp add: lm77_detect_last_read_def probe_shadow_def shadow_round_mismatch_def
      i2c_smbus_read_word_data_def xfer_eq split: if_splits)

text \<open>
  The identification block of \<open>lm77_detect\<close> lets a chip through exactly when the
  replies of the bus fail none of the four tests.
\<close>

lemma probe_iff:
  "fst (lm77_detect_probe bus k) \<longleftrightarrow>
     \<not> (aliasing_mismatch bus (chip k) \<or> sign_bits_invalid bus (chip k)
        \<or> conf_unused_bits_set bus (chip k) \<or> shadow_mismatch bus (chip k))"
proof -
  define cur where "cur = fst (bus (chip k) (Read_Word_Data 0))"
  define s1 where "s1 = snd (bus (chip k) (Read_Word_Data 0))"
  define conf where "conf = fst (bus s1 (Read_Byte_Data 1))"
  define s2 where "s2 = snd (bus s1 (Read_Byte_Data 1))"
  define hyst where "hyst = fst (bus s2 (Read_Word_Data 2))"
  define s3 where "s3 = snd (bus s2 (Read_Word_Data 2))"
  define crit where "crit = fst (bus s3 (Read_Word_Data 3))"
  define s4 where "s4 = snd (bus s3 (Read_Word_Data 3))"
  define minv where "minv = fst (bus s4 (Read_Word_Data 4))"
  define s5 where "s5 = snd (bus s4 (Read_Word_Data 4))"
  define maxv where "maxv = fst (bus s5 (Read_Word_Data 5))"
  define s6 where "s6 = snd (bus s5 (Read_Word_Data 5))"
  define k6 where "k6 = k\<lparr>chip := s6, issued := issued k @ probe_first\<rparr>"
  define bad where
    "bad \<longleftrightarrow> ((cur AND 0x00f0) \<noteq> 0xf0 \<and> (cur AND 0x00f0) \<noteq> 0x0)
           \<or> ((hyst AND 0x00f0) \<noteq> 0xf0 \<and> (hyst AND 0x00f0) \<noteq> 0x0)
           \<or> ((crit AND 0x00f0) \<noteq> 0xf0 \<and> (crit AND 0x00f0) \<noteq> 0x0)
           \<or> ((minv AND 0x00f0) \<noteq> 0xf0 \<and> (minv AND 0x00f0) \<noteq> 0x0)
           \<or> ((maxv AND 0x00f0) \<noteq> 0xf0 \<and> (maxv AND 0x00f0) \<noteq> 0x0)"
  have first: "bus_replies bus (chip k) probe_first = [cur, conf, hyst, crit, minv, maxv]"
    "bus_state bus (chip k) probe_first = s6"
    by (simp_all add: probe_first_def cur_def s1_def conf_def s2_def hyst_def s3_def crit_def
        s4_def minv_def s5_def maxv_def s6_def)
  obtain same kc where c: "lm77_detect_cycle bus 8 conf hyst crit minv maxv k6 = (same, kc)"
    by (cases "lm77_detect_cycle bus 8 conf hyst crit minv maxv k6")
  obtain ok1 ka where r1: "lm77_detect_last_read bus kc = (ok1, ka)"
    by (cases "lm77_detect_last_read bus kc")
  obtain ok2 kb where r2: "lm77_detect_last_read bus ka = (ok2, kb)"
    by (cases "lm77_detect_last_read bus ka")
  obtain ok3 kd where r3: "lm77_detect_last_read bus kb = (ok3, kd)"
    by (cases "lm77_detect_last_read bus kb")
  have unfolded: "lm77_detect_probe bus k =
     (if \<not> same then (False, kc)
      else if bad then (False, kc)
      else if conf AND 0xe0 \<noteq> 0 then (False, kc)
      else if \<not> ok1 then (False, ka)
      else if \<not> ok2 then (False, kb)
      else (ok3, kd))"
    using c r1 r2 r3 unfolding bad_def
    by (simp add: lm77_detect_probe_def i2c_smbus_read_byte_data_def
        i2c_smbus_read_word_data_def xfer_eq probe_first_def cur_def s1_def conf_def s2_def
        hyst_def s3_def crit_def s4_def minv_def s5_def maxv_def s6_def k6_def)
  have accepted: "fst (lm77_detect_probe bus k) \<longleftrightarrow>
      same \<and> \<not> bad \<and> conf AND 0xe0 = 0 \<and> ok1 \<and> ok2 \<and> ok3"
    unfolding unfolded by simp
  have signs: "sign_bits_invalid bus (chip k) \<longleftrightarrow> bad"
    unfolding bad_def by (simp add: sign_bits_invalid_def first)
  have confb: "conf_unused_bits_set bus (chip k) \<longleftrightarrow> conf AND 0xe0 \<noteq> 0"
    by (simp add: conf_unused_bits_set_def first)
  have c8: "lm77_detect_cycle bus (8 * int 1) conf hyst crit minv maxv k6 = (same, kc)"
    using c by simp
  have chip6: "chip k6 = s6"
    by (simp add: k6_def)
  show ?thesis
  proof (cases same)
    case False
    with cycle_False [of bus 1 conf hyst crit minv maxv k6 kc] c8
    have "aliasing_mismatch bus (chip k)"
      by (simp add: aliasing_mismatch_def first probe_alias_def chip6)
    with False accepted show ?thesis by simp
  next
    case True
    with cycle_True [of bus 1 conf hyst crit minv maxv k6 kc] c8
    have aliased: "bus_replies bus s6 probe_alias =
        concat (replicate 31 [conf, hyst, crit, minv, maxv])"
      and kc: "chip kc = bus_state bus s6 probe_alias"
      by (simp_all add: probe_alias_def chip6)
    have al: "\<not> aliasing_mismatch bus (chip k)"
      by (simp add: aliasing_mismatch_def first aliased)
    have sh: "shadow_mismatch bus (chip k) \<longleftrightarrow>
        shadow_round_mismatch (bus_replies bus (chip kc) probe_shadow)
        \<or> shadow_round_mismatch
             (bus_replies bus (bus_state bus (chip kc) probe_shadow) probe_shadow)
        \<or> shadow_round_mismatch
             (bus_replies bus (bus_state bus (bus_state bus (chip kc) probe_shadow)
                probe_shadow) probe_shadow)"
      by (simp add: shadow_mismatch_def Let_def state_append first kc)
    have rounds: "shadow_mismatch bus (chip k) \<longleftrightarrow> \<not> (ok1 \<and> ok2 \<and> ok3)"
    proof (cases ok1)
      case False
      with r1 last_read_False [of bus kc ka] sh show ?thesis by simp
    next
      case ok1: True
      with r1 last_read_True [of bus kc ka]
      have a: "\<not> shadow_round_mismatch (bus_replies bus (chip kc) probe_shadow)"
        "chip ka = bus_state bus (chip kc) probe_shadow" by simp_all
      show ?thesis
      proof (cases ok2)
        case False
        with r2 last_read_False [of bus ka kb] sh a show ?thesis by simp
      next
        case ok2: True
        with r2 last_read_True [of bus ka kb]
        have b: "\<not> shadow_round_mismatch (bus_replies bus (chip ka) probe_shadow)"
          "chip kb = bus_state bus (chip ka) probe_shadow" by simp_all
        show ?thesis
        proof (cases ok3)
          case False
          with r3 last_read_False [of bus kb kd] sh a b ok1 ok2 show ?thesis by simp
        next
          case True
          with r3 last_read_True [of bus kb kd]
          have "\<not> shadow_round_mismatch (bus_replies bus (chip kb) probe_shadow)" by simp
          with sh a b ok1 ok2 True show ?thesis by simp
        qed
      qed
    qed
    from True accepted al signs confb rounds show ?thesis by auto
  qed
qed

text \<open>
  Claim C9. When \<open>lm77_detect\<close> probes (\<open>kind < 0\<close>, on an I2C adapter with the
  functionality needed and with the client data allocated) and the replies of the bus
  fail any test of the identification, that is, a re-read of registers 1 to 5 at one
  of the offsets 8, 16, ..., 248 differs from the first read, or the top four bits of
  one of the five words are neither all ones nor all zeros, or one of the top three
  bits of the configuration byte is set, or register 6 or 7 does not return the value
  just read from register 0 in one of the three rounds, then the call returns 0, the
  allocated data has been freed, no client data remains and no client is attached.
\<close>

theorem probe_rejection:
  assumes "kind < 0" "\<not> is_isa_adapter env" "check_functionality env" "kmalloc_ok env"
    and "aliasing_mismatch bus (chip k) \<or> sign_bits_invalid bus (chip k)
         \<or> conf_unused_bits_set bus (chip k) \<or> shadow_mismatch bus (chip k)"
  shows "ret (lm77_detect bus env kind k) = 0
     \<and> allocated (lm77_detect bus env kind k) \<and> freed (lm77_detect bus env kind k)
     \<and> client_data (lm77_detect bus env kind k) = None
     \<and> \<not> attached (lm77_detect bus env kind k)"
proof -
  from assms(5) have "\<not> fst (lm77_detect_probe bus k)"
    by (simp add: probe_iff)
  then obtain k' where "lm77_detect_probe bus k = (False, k')"
    by (cases "lm77_detect_probe bus k") simp
  with assms(1-4) show ?thesis
    by (simp add: lm77_detect_def lm77_detect_error_def)
qed

text \<open>One bus for each of the four tests.\<close>

theorem probe_rejection_witness:
  "(ret (lm77_detect counting_bus good_env (- 1) \<lparr>chip = 0, issued = [], klog = []\<rparr>) = 0
    \<and> freed (lm77_detect counting_bus good_env (- 1) \<lparr>chip = 0, issued = [], klog = []\<rparr>)
    \<and> client_data (lm77_detect counting_bus good_env (- 1)
         \<lparr>chip = 0, issued = [], klog = []\<rparr>) = None)
   \<and> (ret (lm77_detect sign_bus good_env (- 1) idle_kernel) = 0
    \<and> freed (lm77_detect sign_bus good_env (- 1) idle_kernel)
    \<and> client_data (lm77_detect sign_bus good_env (- 1) idle_kernel) = None)
   \<and> (ret (lm77_detect conf_bus good_env (- 1) idle_kernel) = 0
    \<and> freed (lm77_detect conf_bus good_env (- 1) idle_kernel)
    \<and> client_data (lm77_detect conf_bus good_env (- 1) idle_kernel) = None)
   \<and> (ret (lm77_detect shadow_bus good_env (- 1) idle_kernel) = 0
    \<and> freed (lm77_detect shadow_bus good_env (- 1) idle_kernel)
    \<and> client_data (lm77_detect shadow_bus good_env (- 1) idle_kernel) = None)"
proof -
  have env: "\<not> is_isa_adapter good_env" "check_functionality good_env" "kmalloc_ok good_env"
    by (simp_all add: good_env_def)
  have "hd (bus_replies counting_bus (bus_state counting_bus 0 probe_first) probe_alias) = 6"
    by (simp add: probe_first_def probe_alias_def counting_bus_def upt_conv_Cons
        probe_alias_at_def)
  moreover have "hd (concat (replicate 31 (tl (bus_replies counting_bus 0 probe_first)))) = 1"
    by (simp add: probe_first_def counting_bus_def numeral_eq_Suc)
  ultimately have "hd (bus_replies counting_bus (bus_state counting_bus 0 probe_first) probe_alias)
      \<noteq> hd (concat (replicate 31 (tl (bus_replies counting_bus 0 probe_first))))"
    by simp
  then have a: "aliasing_mismatch counting_bus 0"
    unfolding aliasing_mismatch_def by auto
  have b: "sign_bits_invalid sign_bus ()"
    by (simp add: sign_bits_invalid_def probe_first_def sign_bus_def)
  have c: "conf_unused_bits_set conf_bus ()"
    by (simp add: conf_unused_bits_set_def probe_first_def conf_bus_def)
  have d: "shadow_mismatch shadow_bus ()"
    by (simp add: shadow_mismatch_def shadow_round_mismatch_def probe_shadow_def
        shadow_bus_def Let_def)
  from probe_rejection
    [where kind = "- 1" and env = good_env and bus = counting_bus
       and k = "\<lparr>chip = 0, issued = [], klog = []\<rparr>"]
    probe_rejection [where kind = "- 1" and env = good_env and bus = sign_bus and k = idle_kernel]
    probe_rejection [where kind = "- 1" and env = good_env and bus = conf_bus and k = idle_kernel]
    probe_rejection
    [where kind = "- 1" and env = good_env and bus = shadow_bus and k = idle_kernel]
    env a b c d
  show ?thesis by (simp add: idle_kernel_def)
qed

text \<open>
  Claim C10. \<open>lm77_init_client\<close> reads the configuration register and then writes 0
  to it, whatever was read. Whenever \<open>lm77_detect\<close> ends with the client attached, it
  returns 0, the last thing it did was this initialisation, run on the kernel as the
  identification block left it, and the client data it leaves is not yet valid, so
  no refresh has happened.
\<close>

theorem attach_resets_configuration:
  "issued (lm77_init_client bus k1) =
     issued k1 @ [Read_Byte_Data LM77_REG_CONF, Write_Byte_Data LM77_REG_CONF 0]
   \<and> (attached (lm77_detect bus env kind k) \<longrightarrow>
        kern (lm77_detect bus env kind k) =
          lm77_init_client bus (snd (if kind < 0 then lm77_detect_probe bus k else (True, k)))
        \<and> ret (lm77_detect bus env kind k) = 0
        \<and> (\<exists>d. client_data (lm77_detect bus env kind k) = Some d \<and> \<not> valid d))"
proof -
  obtain ok k' where p: "(if kind < 0 then lm77_detect_probe bus k else (True, k)) = (ok, k')"
    by (cases "if kind < 0 then lm77_detect_probe bus k else (True, k)")
  have "attached (lm77_detect bus env kind k) \<longrightarrow>
        kern (lm77_detect bus env kind k) = lm77_init_client bus k'
        \<and> ret (lm77_detect bus env kind k) = 0
        \<and> (\<exists>d. client_data (lm77_detect bus env kind k) = Some d \<and> \<not> valid d)"
    using p unfolding lm77_detect_def lm77_detect_error_def Let_def
    by (simp add: zeroed_data_def)
  with p init_client_issued show ?thesis by simp
qed

theorem attach_resets_configuration_witness:
  "attached (lm77_detect zero_bus good_env (- 1) idle_kernel)
   \<and> last (issued (kern (lm77_detect zero_bus good_env (- 1) idle_kernel))) =
       Write_Byte_Data 1 0
   \<and> last (butlast (issued (kern (lm77_detect zero_bus good_env (- 1) idle_kernel)))) =
       Read_Byte_Data 1"
proof -
  have "fst (lm77_detect_probe zero_bus idle_kernel)"
    by (rule probe_zero) (simp add: zero_bus_def)
  then obtain k' where p: "lm77_detect_probe zero_bus idle_kernel = (True, k')"
    by (cases "lm77_detect_probe zero_bus idle_kernel") simp
  then have a: "attached (lm77_detect zero_bus good_env (- 1) idle_kernel)"
    by (simp add: lm77_detect_def lm77_def good_env_def)
  with attach_resets_configuration
    [where bus = zero_bus and env = good_env and kind = "- 1" and k = idle_kernel
       and ?k1.0 = k']
    p
  show ?thesis
    by (simp add: LM77_REG_CONF_def butlast_append)
qed

end
